theory Spec2Isabelle
  imports Main "HOL-Library.Multiset"
begin

section \<open>The blind-tasting notebook: data preparation, descriptor report, prediction\<close>

text \<open>
  The development follows the code cells of \<^verbatim>\<open>blind_tasting_red_wine.ipynb\<close>. The
  table \<^verbatim>\<open>df\<close> is a list of rows in index order; a column is the list of one field of
  every row. The calls into scikit-learn (vectorizer, classifiers) are parameters of the
  model: only the notebook's own code around them is embedded.
\<close>

subsection \<open>Python string operations used by the notebook\<close>

text \<open>
  \<^verbatim>\<open>a.split(' ')\<close>: split at every single space. Adjacent, leading and trailing spaces
  give empty strings, and the empty string splits into one empty string.
\<close>

fun split_sp :: "string \<Rightarrow> string list" where
  "split_sp [] = [[]]"
| "split_sp (c # cs) =
     (if c = CHR '' '' then [] # split_sp cs
      else (case split_sp cs of [] \<Rightarrow> [[c]] | w # ws \<Rightarrow> (c # w) # ws))"

text \<open>\<^verbatim>\<open>' '.join(xs)\<close>.\<close>

fun join_sp :: "string list \<Rightarrow> string" where
  "join_sp [] = []"
| "join_sp [x] = x"
| "join_sp (x # y # ys) = x @ CHR '' '' # join_sp (y # ys)"

text \<open>
  One pass of the description filter on one row:
  \<^verbatim>\<open>' '.join(x for x in a.split(' ') if x not in set(b.split(' ')))\<close>.
\<close>

definition remove_tokens :: "string \<Rightarrow> string \<Rightarrow> string" where
  "remove_tokens a b = join_sp (filter (\<lambda>x. x \<notin> set (split_sp b)) (split_sp a))"

text \<open>
  The single combined pass the two-pass filter is compared with: one split, one filter
  against the union of both token sets, one join.
\<close>

definition single_pass_union :: "string \<Rightarrow> string \<Rightarrow> string \<Rightarrow> string" where
  "single_pass_union a v p =
     join_sp (filter (\<lambda>x. x \<notin> set (split_sp v) \<union> set (split_sp p)) (split_sp a))"

text \<open>
  The tokenization the specification speaks of, to compare the code with: Python's
  \<^verbatim>\<open>s.split()\<close>, the maximal runs of characters that are not whitespace. The whitespace
  characters are the ASCII ones \<^verbatim>\<open>str.isspace\<close> accepts: space, tab, line feed, vertical
  tab, form feed, carriage return and the four separators 0x1C to 0x1F.
\<close>

definition whitespace :: "char \<Rightarrow> bool" where
  "whitespace c \<longleftrightarrow>
     c \<in> {CHR '' '', CHR 0x09, CHR 0x0A, CHR 0x0B, CHR 0x0C, CHR 0x0D,
          CHR 0x1C, CHR 0x1D, CHR 0x1E, CHR 0x1F}"

fun split_at :: "(char \<Rightarrow> bool) \<Rightarrow> string \<Rightarrow> string list" where
  "split_at sep [] = [[]]"
| "split_at sep (c # cs) =
     (if sep c then [] # split_at sep cs
      else (case split_at sep cs of [] \<Rightarrow> [[c]] | w # ws \<Rightarrow> (c # w) # ws))"

definition whitespace_tokens :: "string \<Rightarrow> string list" where
  "whitespace_tokens s = filter (\<lambda>w. w \<noteq> []) (split_at whitespace s)"

text \<open>
  The words the code works on: the non-empty elements of \<^verbatim>\<open>s.split(' ')\<close>, the maximal
  runs of characters other than the space.
\<close>

definition space_tokens :: "string \<Rightarrow> string list" where
  "space_tokens s = filter (\<lambda>w. w \<noteq> []) (split_sp s)"

text \<open>
  \<^verbatim>\<open>re.sub('[\.\,\-]', ' ', s)\<close>: every period, comma and hyphen becomes one space.
\<close>

definition punct :: "char set" where
  "punct = {CHR ''.'', CHR '','', CHR ''-''}"

definition regex_replace :: "string \<Rightarrow> string" where
  "regex_replace s = map (\<lambda>c. if c \<in> punct then CHR '' '' else c) s"

subsection \<open>The table\<close>

text \<open>
  A cell of a column the notebook never names: missing, text or a number. The three
  columns the notebook works on (\<^verbatim>\<open>description\<close>, \<^verbatim>\<open>province\<close>, \<^verbatim>\<open>variety\<close>) are text
  columns, so each of their cells is a string or missing (\<open>None\<close>, pandas' NaN). The
  index column is renamed to \<^verbatim>\<open>id\<close> when the file is read.
\<close>

datatype cell = NaN | Str string | Num int

record row =
  row_id :: int
  description :: "string option"
  province :: "string option"
  variety :: "string option"
  other :: "cell list"

datatype error = AttributeError | IndexError

text \<open>\<^verbatim>\<open>df[mask]\<close>: the rows at which the boolean column is true, in order.\<close>

definition select_rows :: "'a list \<Rightarrow> bool list \<Rightarrow> 'a list" where
  "select_rows df flags = map fst (filter snd (zip df flags))"

subsection \<open>Cleaner\<close>

text \<open>
  \<^verbatim>\<open>df.drop_duplicates(subset = df.columns.difference(['id']), inplace=True)\<close>
  \<^verbatim>\<open>df.dropna(subset=['province', 'variety'], inplace = True)\<close>

  A row is a duplicate when an earlier row has the same value in every column but
  \<^verbatim>\<open>id\<close> (pandas keeps the first of each group and counts two missing cells as equal).
\<close>

definition non_id_columns ::
  "row \<Rightarrow> string option \<times> string option \<times> string option \<times> cell list" where
  "non_id_columns r = (description r, province r, variety r, other r)"

fun duplicated :: "'k list \<Rightarrow> 'k list \<Rightarrow> bool list" where
  "duplicated seen [] = []"
| "duplicated seen (k # ks) = (k \<in> set seen) # duplicated (k # seen) ks"

definition drop_duplicates :: "row list \<Rightarrow> row list" where
  "drop_duplicates df = select_rows df (map Not (duplicated [] (map non_id_columns df)))"

definition dropna :: "row list \<Rightarrow> row list" where
  "dropna df = select_rows df (map (\<lambda>r. province r \<noteq> None \<and> variety r \<noteq> None) df)"

definition cleaner :: "row list \<Rightarrow> row list" where
  "cleaner df = dropna (drop_duplicates df)"

subsection \<open>Leakage Filter\<close>

text \<open>
  \<^verbatim>\<open>df.replace('[\.\,\-]', ' ', regex = True, inplace = True)\<close> rewrites every text cell
  of every column; numbers and missing cells stay.
\<close>

fun replace_cell :: "cell \<Rightarrow> cell" where
  "replace_cell NaN = NaN"
| "replace_cell (Str s) = Str (regex_replace s)"
| "replace_cell (Num n) = Num n"

definition replace_row :: "row \<Rightarrow> row" where
  "replace_row r =
     \<lparr>row_id = row_id r,
      description = map_option regex_replace (description r),
      province = map_option regex_replace (province r),
      variety = map_option regex_replace (variety r),
      other = map replace_cell (other r)\<rparr>"

definition replace_df :: "row list \<Rightarrow> row list" where
  "replace_df df = map replace_row df"

text \<open>
  One element of the comprehension
  \<^verbatim>\<open>[' '.join(x for x in a.split(' ') if x not in set(b.split(' '))) for a, b in zip(A, B)]\<close>.
  A missing cell is a float, which has no \<^verbatim>\<open>split\<close>: the element raises.
\<close>

definition strip_tokens :: "string option \<times> string option \<Rightarrow> error + string" where
  "strip_tokens ab =
     (case ab of
        (Some a, Some b) \<Rightarrow> Inr (remove_tokens a b)
      | _ \<Rightarrow> Inl AttributeError)"

text \<open>A comprehension stops at the first element that raises.\<close>

fun comprehension :: "('a \<Rightarrow> error + 'b) \<Rightarrow> 'a list \<Rightarrow> error + 'b list" where
  "comprehension f [] = Inr []"
| "comprehension f (x # xs) =
     (case f x of
        Inl e \<Rightarrow> Inl e
      | Inr y \<Rightarrow> (case comprehension f xs of Inl e \<Rightarrow> Inl e | Inr ys \<Rightarrow> Inr (y # ys)))"

text \<open>\<^verbatim>\<open>df['description'] = values\<close>.\<close>

definition set_description :: "row list \<Rightarrow> string list \<Rightarrow> row list" where
  "set_description df values = map (\<lambda>(r, d). r\<lparr>description := Some d\<rparr>) (zip df values)"

text \<open>
  One assignment of the cell, for the label column \<open>col\<close>:
  \<^verbatim>\<open>df['description'] = [... for a, b in zip(df['description'], df[col])]\<close>.
\<close>

definition filter_pass :: "(row \<Rightarrow> string option) \<Rightarrow> row list \<Rightarrow> error + row list" where
  "filter_pass col df =
     (case comprehension strip_tokens (zip (map description df) (map col df)) of
        Inl e \<Rightarrow> Inl e
      | Inr values \<Rightarrow> Inr (set_description df values))"

text \<open>
  The two assignments of the cell: the variety pass first, then the province pass on the
  table the first assignment has written.
\<close>

definition leakage_filter :: "row list \<Rightarrow> error + row list" where
  "leakage_filter df =
     (case filter_pass variety df of
        Inl e \<Rightarrow> Inl e
      | Inr df1 \<Rightarrow> filter_pass province df1)"

subsection \<open>Label Builder\<close>

text \<open>
  \<^verbatim>\<open>df['prov_var'] = df['province'] + '_' + df['variety']\<close>: element-wise string
  concatenation of two text columns; a missing operand gives a missing result.
\<close>

record lrow = row +
  prov_var :: "string option"

definition str_add :: "string option \<Rightarrow> string option \<Rightarrow> string option" where
  "str_add x y = (case (x, y) of (Some a, Some b) \<Rightarrow> Some (a @ b) | _ \<Rightarrow> None)"

definition label_of :: "row \<Rightarrow> string option" where
  "label_of r = str_add (str_add (province r) (Some ''_'')) (variety r)"

definition label_builder :: "row list \<Rightarrow> lrow list" where
  "label_builder df =
     map (\<lambda>r. \<lparr>row_id = row_id r, description = description r, province = province r,
               variety = variety r, other = other r, prov_var = label_of r\<rparr>) df"

text \<open>The cells of the notebook up to the label column, in their order.\<close>

definition prepare :: "row list \<Rightarrow> error + lrow list" where
  "prepare raw =
     (case leakage_filter (replace_df (cleaner raw)) of
        Inl e \<Rightarrow> Inl e
      | Inr df \<Rightarrow> Inr (label_builder df))"

subsection \<open>Class Selector\<close>

definition selected_red :: "string list" where
  "selected_red =
     [''California_Pinot Noir'',
      ''California_Cabernet Sauvignon'',
      ''Oregon_Pinot Noir'',
      ''Washington_Cabernet Sauvignon'',
      ''Washington_Syrah'',
      ''Piedmont_Nebbiolo'',
      ''Piedmont_Barbera'',
      ''Tuscany_Sangiovese'',
      ''Veneto_Corvina, Rondinella, Molinara'',
      ''Bordeaux_Bordeaux-style Red Blend'',
      ''Burgundy_Pinot Noir'',
      ''Beaujolais_Gamay'',
      ''Rh??ne Valley_Rh??ne-style Red Blend'',
      ''Douro_Portuguese Red'',
      ''Northern Spain_Tempranillo'',
      ''Mendoza Province_Malbec'',
      ''South Australia_Shiraz'']"

text \<open>
  \<^verbatim>\<open>df[df.prov_var.isin(lst)][['id', 'description', 'prov_var']]\<close>. A missing label is
  in no list of strings.
\<close>

record srow =
  sel_id :: int
  sel_description :: "string option"
  sel_prov_var :: "string option"

definition isin :: "string option \<Rightarrow> string list \<Rightarrow> bool" where
  "isin v lst = (case v of None \<Rightarrow> False | Some s \<Rightarrow> s \<in> set lst)"

definition project :: "lrow \<Rightarrow> srow" where
  "project r = \<lparr>sel_id = row_id r, sel_description = description r, sel_prov_var = prov_var r\<rparr>"

definition df_select :: "lrow list \<Rightarrow> string list \<Rightarrow> srow list" where
  "df_select df lst = map project (select_rows df (map (\<lambda>r. isin (prov_var r) lst) df))"

subsection \<open>Descriptor Reporter\<close>

text \<open>
  \<^verbatim>\<open>sorted(xs, key = k, reverse = True)\<close>: a stable sort in descending key order. Python
  reverses the list, sorts it stably in ascending order and reverses the result, so
  entries of equal key keep their order.
\<close>

definition sorted_reverse :: "('a \<Rightarrow> 'k::linorder) \<Rightarrow> 'a list \<Rightarrow> 'a list" where
  "sorted_reverse k xs = rev (sort_key k (rev xs))"

text \<open>
  The ranking the specification describes, to compare the code with: every entry once,
  in descending weight order, entries of equal weight in their original order.
\<close>

definition stable_descending_ranking ::
  "('a \<times> 'w::linorder) list \<Rightarrow> ('a \<times> 'w) list \<Rightarrow> bool" where
  "stable_descending_ranking entries ranked \<longleftrightarrow>
     mset ranked = mset entries \<and>
     sorted (rev (map snd ranked)) \<and>
     (\<forall>w. filter (\<lambda>t. snd t = w) ranked = filter (\<lambda>t. snd t = w) entries)"

text \<open>
  The body of the loop over \<^verbatim>\<open>class_map\<close>, for the row of weights of one class:
  \<^verbatim>\<open>sorted(list(zip(feature_names, weights)), key = lambda t: t[1], reverse = True)[:10]\<close>,
  of which the names are printed.
\<close>

definition top_descriptors :: "string list \<Rightarrow> ('w::linorder) list \<Rightarrow> string list" where
  "top_descriptors feature_names weights =
     map fst (take 10 (sorted_reverse snd (zip feature_names weights)))"

text \<open>
  The loop: one line of descriptors per entry \<^verbatim>\<open>[label, code]\<close> of \<^verbatim>\<open>class_map\<close>. The
  matrix is \<^verbatim>\<open>clf.feature_log_prob_\<close> for the naive Bayes model and \<^verbatim>\<open>clf.coef_\<close> for the
  linear model; a code past its last row raises.
\<close>

definition report_class ::
  "string list \<Rightarrow> ('w::linorder) list list \<Rightarrow> string \<times> nat \<Rightarrow> error + string \<times> string list" where
  "report_class feature_names matrix cl =
     (if snd cl < length matrix
      then Inr (fst cl, top_descriptors feature_names (matrix ! snd cl))
      else Inl IndexError)"

definition descriptor_report ::
  "string list \<Rightarrow> ('w::linorder) list list \<Rightarrow> (string \<times> nat) list \<Rightarrow>
   error + (string \<times> string list) list" where
  "descriptor_report feature_names matrix class_map =
     comprehension (report_class feature_names matrix) class_map"

subsection \<open>Predictor\<close>

text \<open>
  \<^verbatim>\<open>result = list(clf.predict(vectorizer.transform(test_input)))\<close>
  \<^verbatim>\<open>list(c[0] for c in class_map if c[1] in result)\<close>

  The fitted vectorizer's \<^verbatim>\<open>transform\<close> and the fitted classifier's \<^verbatim>\<open>predict\<close> are
  parameters.
\<close>

definition predictor ::
  "(string list \<Rightarrow> 'x) \<Rightarrow> ('x \<Rightarrow> nat list) \<Rightarrow> (string \<times> nat) list \<Rightarrow> string list \<Rightarrow> string list" where
  "predictor transform predict class_map test_input =
     (let result = predict (transform test_input)
      in map fst (filter (\<lambda>c. snd c \<in> set result) class_map))"

text \<open>The value of \<^verbatim>\<open>class_map\<close> the notebook prints for the red wines.\<close>

definition class_map_red :: "(string \<times> nat) list" where
  "class_map_red =
     [(''Douro_Portuguese Red'', 4), (''Oregon_Pinot Noir'', 7),
      (''California_Cabernet Sauvignon'', 2), (''Mendoza Province_Malbec'', 5),
      (''California_Pinot Noir'', 3), (''Beaujolais_Gamay'', 0),
      (''Tuscany_Sangiovese'', 11), (''Piedmont_Nebbiolo'', 9),
      (''Piedmont_Barbera'', 8), (''South Australia_Shiraz'', 10),
      (''Burgundy_Pinot Noir'', 1), (''Northern Spain_Tempranillo'', 6),
      (''Washington_Syrah'', 13), (''Washington_Cabernet Sauvignon'', 12)]"

subsection \<open>An example table\<close>

text \<open>
  Four raw rows: a duplicate pair, a row with no province, and a row whose variety has a
  hyphen. The unnamed columns hold a country and a score.
\<close>

definition example_raw :: "row list" where
  "example_raw =
     [\<lparr>row_id = 0, description = Some ''Ripe cherry, Pinot-driven. Oregon style'',
       province = Some ''Oregon'', variety = Some ''Pinot Noir'', other = [Str ''US'', Num 87]\<rparr>,
      \<lparr>row_id = 1, description = Some ''Ripe cherry, Pinot-driven. Oregon style'',
       province = Some ''Oregon'', variety = Some ''Pinot Noir'', other = [Str ''US'', Num 87]\<rparr>,
      \<lparr>row_id = 2, description = Some ''Smoked meat'',
       province = None, variety = Some ''Syrah'', other = [Str ''US'', NaN]\<rparr>,
      \<lparr>row_id = 3, description = Some ''Rich Bordeaux-style Red'',
       province = Some ''Bordeaux'', variety = Some ''Bordeaux-style Red Blend'',
       other = [Str ''France'', Num 90]\<rparr>]"

text \<open>
  A table with its label column, as the Label Builder leaves it: two rows of one red
  class of the list, one red row whose class is not matched, and a white row.
\<close>

definition example_labelled :: "lrow list" where
  "example_labelled =
     [\<lparr>row_id = 0, description = Some ''Ripe cherry  driven  style'',
       province = Some ''Oregon'', variety = Some ''Pinot Noir'',
       other = [Str ''US'', Num 87], prov_var = Some ''Oregon_Pinot Noir''\<rparr>,
      \<lparr>row_id = 3, description = Some ''Rich'',
       province = Some ''Bordeaux'', variety = Some ''Bordeaux style Red Blend'',
       other = [Str ''France'', Num 90],
       prov_var = Some ''Bordeaux_Bordeaux style Red Blend''\<rparr>,
      \<lparr>row_id = 4, description = Some ''Crisp green apple'',
       province = Some ''California'', variety = Some ''Chardonnay'',
       other = [Str ''US'', Num 85], prov_var = Some ''California_Chardonnay''\<rparr>,
      \<lparr>row_id = 9, description = Some ''Silky cola and raspberry'',
       province = Some ''Oregon'', variety = Some ''Pinot Noir'',
       other = [Str ''US'', Num 91], prov_var = Some ''Oregon_Pinot Noir''\<rparr>]"

text \<open>
  A vocabulary of twelve entries and a weight matrix with one row per label code; the
  first row has three entries of equal weight.
\<close>

definition example_names :: "string list" where
  "example_names =
     [''barrel'', ''cherry fruit'', ''cola'', ''dark'', ''earthy'', ''firm'',
      ''light'', ''plum'', ''silky'', ''spice'', ''tart'', ''vanilla'']"

definition example_matrix :: "int list list" where
  "example_matrix =
     [[- 9, - 2, - 7, - 3, - 5, - 4, - 2, - 8, - 6, - 10, - 2, - 11],
      [- 3, - 12, - 11, - 1, - 6, - 5, - 10, - 4, - 9, - 2, - 8, - 7]]"

section \<open>Properties of split and join\<close>

lemma split_sp_not_Nil: "split_sp s \<noteq> []"
  by (induction s) (auto split: list.splits)

lemma split_sp_no_space: "w \<in> set (split_sp s) \<Longrightarrow> CHR '' '' \<notin> set w"
proof (induction s arbitrary: w)
  case Nil
  then show ?case by simp
next
  case (Cons c cs)
  show ?case
  proof (cases "c = CHR '' ''")
    case True
    with Cons show ?thesis by auto
  next
    case False
    obtain u us where us: "split_sp cs = u # us"
      using split_sp_not_Nil [of cs] by (cases "split_sp cs") auto
    with False Cons.prems have "w = c # u \<or> w \<in> set us" by auto
    then show ?thesis
    proof
      assume "w = c # u"
      moreover have "CHR '' '' \<notin> set u" using Cons.IH [of u] us by simp
      ultimately show ?thesis using False by auto
    next
      assume "w \<in> set us"
      then show ?thesis using Cons.IH [of w] us by simp
    qed
  qed
qed

lemma split_sp_word: "CHR '' '' \<notin> set w \<Longrightarrow> split_sp w = [w]"
  by (induction w) auto

lemma split_sp_word_space:
  "CHR '' '' \<notin> set w \<Longrightarrow> split_sp (w @ CHR '' '' # rest) = w # split_sp rest"
  by (induction w) auto

lemma split_join:
  "xs \<noteq> [] \<Longrightarrow> \<forall>w\<in>set xs. CHR '' '' \<notin> set w \<Longrightarrow> split_sp (join_sp xs) = xs"
proof (induction xs rule: join_sp.induct)
  case 1
  then show ?case by simp
next
  case (2 x)
  then show ?case by (simp add: split_sp_word)
next
  case (3 x y ys)
  then show ?case by (simp add: split_sp_word_space)
qed

lemma join_split: "join_sp (split_sp s) = s"
proof (induction s)
  case Nil
  then show ?case by simp
next
  case (Cons c cs)
  obtain u us where us: "split_sp cs = u # us"
    using split_sp_not_Nil [of cs] by (cases "split_sp cs") auto
  show ?case
  proof (cases "c = CHR '' ''")
    case True
    with Cons us show ?thesis by simp
  next
    case False
    with Cons us show ?thesis by (cases us) auto
  qed
qed

text \<open>
  Filtering the tokens of a joined token list is filtering the list itself: the join of
  no tokens is the empty string, which splits into one empty token, and joining that
  token (kept or not) gives the empty string again.
\<close>

lemma filter_split_join:
  assumes "\<forall>w\<in>set ys. CHR '' '' \<notin> set w"
  shows "join_sp (filter Q (split_sp (join_sp ys))) = join_sp (filter Q ys)"
proof (cases "ys = []")
  case True
  then show ?thesis by simp
next
  case False
  with assms show ?thesis by (simp add: split_join)
qed

lemma two_passes:
  "join_sp (filter Q (split_sp (join_sp (filter R (split_sp a))))) =
   join_sp (filter (\<lambda>x. R x \<and> Q x) (split_sp a))"
proof -
  have "\<forall>w\<in>set (filter R (split_sp a)). CHR '' '' \<notin> set w"
    by (auto dest: split_sp_no_space)
  then show ?thesis
    by (simp add: filter_split_join conj_commute)
qed

text \<open>
  Where the space is the only whitespace character, both tokenizations agree.
\<close>

lemma split_at_only_spaces:
  "\<forall>c\<in>set s. whitespace c \<longrightarrow> c = CHR '' '' \<Longrightarrow> split_at whitespace s = split_sp s"
  by (induction s) (auto simp: whitespace_def)

lemma whitespace_tokens_only_spaces:
  "\<forall>c\<in>set s. whitespace c \<longrightarrow> c = CHR '' '' \<Longrightarrow> whitespace_tokens s = space_tokens s"
  by (simp add: whitespace_tokens_def space_tokens_def split_at_only_spaces)

lemma split_sp_examples:
  "split_sp ''a  b'' = [''a'', [], ''b'']"
  "split_sp [] = [[]]"
  "split_sp '' a '' = [[], ''a'', []]"
  "join_sp [''a'', [], ''b''] = ''a  b''"
  by simp_all

text \<open>
  The tokens of a twice-filtered description: none is a token of either label field,
  unless every token was removed; then the description is empty and its one token is
  the empty string.
\<close>

lemma two_pass_tokens:
  assumes t: "t \<in> set (split_sp (remove_tokens (remove_tokens a v) p))"
    and l: "t \<in> set (split_sp v) \<or> t \<in> set (split_sp p)"
  shows "t = [] \<and> remove_tokens (remove_tokens a v) p = []"
proof -
  let ?ws = "filter (\<lambda>x. x \<notin> set (split_sp v) \<and> x \<notin> set (split_sp p)) (split_sp a)"
  have d: "remove_tokens (remove_tokens a v) p = join_sp ?ws"
    by (simp add: remove_tokens_def two_passes)
  show ?thesis
  proof (cases "?ws = []")
    case True
    with d have "remove_tokens (remove_tokens a v) p = []" by simp
    with t show ?thesis by simp
  next
    case False
    have "\<forall>w\<in>set ?ws. CHR '' '' \<notin> set w"
      by (auto dest: split_sp_no_space)
    with False have "split_sp (join_sp ?ws) = ?ws" by (rule split_join)
    with t d have "t \<in> set ?ws" by simp
    with l show ?thesis by auto
  qed
qed

section \<open>Properties of the table operations\<close>

lemma select_rows_map: "select_rows df (map P df) = filter P df"
  by (induction df) (auto simp: select_rows_def)

lemma comprehension_total:
  "\<forall>x\<in>set xs. f x = Inr (g x) \<Longrightarrow> comprehension f xs = Inr (map g xs)"
  by (induction xs) auto

lemma comprehension_Inr:
  "comprehension f xs = Inr ys \<Longrightarrow> list_all2 (\<lambda>x y. f x = Inr y) xs ys"
  by (induction xs arbitrary: ys) (auto split: sum.splits)

lemma zip_columns: "zip (map f df) (map g df) = map (\<lambda>r. (f r, g r)) df"
  by (induction df) auto

lemma set_description_map:
  "set_description df (map k df) = map (\<lambda>r. r\<lparr>description := Some (k r)\<rparr>) df"
  by (induction df) (auto simp: set_description_def)

lemma set_description_all2:
  "list_all2 P df values \<Longrightarrow>
   list_all2 (\<lambda>r r'. \<exists>d. P r d \<and> r' = r\<lparr>description := Some d\<rparr>) df (set_description df values)"
  by (induction rule: list_all2_induct) (auto simp: set_description_def)

lemma strip_tokens_Inr:
  "strip_tokens (x, y) = Inr d \<Longrightarrow> \<exists>a b. x = Some a \<and> y = Some b \<and> d = remove_tokens a b"
  by (auto simp: strip_tokens_def split: option.splits)

text \<open>One pass succeeds on a table without missing cells in the two columns it reads.\<close>

lemma filter_pass_complete:
  assumes "\<forall>r\<in>set df. description r \<noteq> None \<and> col r \<noteq> None"
  shows "filter_pass col df =
         Inr (map (\<lambda>r. r\<lparr>description :=
                    Some (remove_tokens (the (description r)) (the (col r)))\<rparr>) df)"
proof -
  have "comprehension strip_tokens (map (\<lambda>r. (description r, col r)) df) =
        Inr (map (\<lambda>x. remove_tokens (the (fst x)) (the (snd x)))
               (map (\<lambda>r. (description r, col r)) df))"
    using assms by (intro comprehension_total) (auto simp: strip_tokens_def)
  then have "comprehension strip_tokens (zip (map description df) (map col df)) =
        Inr (map (\<lambda>r. remove_tokens (the (description r)) (the (col r))) df)"
    by (simp add: zip_columns comp_def)
  then show ?thesis
    by (simp add: filter_pass_def set_description_map)
qed

text \<open>What one pass returns, row by row.\<close>

lemma filter_pass_Inr:
  assumes "filter_pass col df = Inr df'"
  shows "list_all2 (\<lambda>r r'. \<exists>a b. description r = Some a \<and> col r = Some b \<and>
            r' = r\<lparr>description := Some (remove_tokens a b)\<rparr>) df df'"
proof -
  from assms obtain vs where
    vs: "comprehension strip_tokens (zip (map description df) (map col df)) = Inr vs"
    and df': "df' = set_description df vs"
    by (auto simp: filter_pass_def split: sum.splits)
  from comprehension_Inr [OF vs]
  have "list_all2 (\<lambda>r d. strip_tokens (description r, col r) = Inr d) df vs"
    by (simp add: zip_columns list_all2_map1)
  from set_description_all2 [OF this] show ?thesis
    unfolding df' by (rule list_all2_mono) (auto dest: strip_tokens_Inr)
qed

lemma leakage_filter_Inr:
  assumes "leakage_filter df = Inr df'"
  shows "list_all2 (\<lambda>r r'. \<exists>a v p. description r = Some a \<and> variety r = Some v \<and>
            province r = Some p \<and>
            r' = r\<lparr>description := Some (remove_tokens (remove_tokens a v) p)\<rparr>) df df'"
proof -
  from assms obtain df1 where p1: "filter_pass variety df = Inr df1"
    and p2: "filter_pass province df1 = Inr df'"
    by (auto simp: leakage_filter_def split: sum.splits)
  have l1: "length df1 = length df" and l2: "length df' = length df1"
    using filter_pass_Inr [OF p1] filter_pass_Inr [OF p2] by (auto dest: list_all2_lengthD)
  show ?thesis
    unfolding list_all2_conv_all_nth
  proof (intro conjI allI impI)
    show "length df = length df'" using l1 l2 by simp
  next
    fix i assume i: "i < length df"
    from filter_pass_Inr [OF p1] i obtain a v where
      a: "description (df ! i) = Some a" "variety (df ! i) = Some v"
         "df1 ! i = (df ! i)\<lparr>description := Some (remove_tokens a v)\<rparr>"
      unfolding list_all2_conv_all_nth by blast
    from filter_pass_Inr [OF p2] i l1 obtain a' p where
      b: "description (df1 ! i) = Some a'" "province (df1 ! i) = Some p"
         "df' ! i = (df1 ! i)\<lparr>description := Some (remove_tokens a' p)\<rparr>"
      unfolding list_all2_conv_all_nth by metis
    from a b show "\<exists>a v p. description (df ! i) = Some a \<and> variety (df ! i) = Some v \<and>
            province (df ! i) = Some p \<and>
            df' ! i = (df ! i)\<lparr>description := Some (remove_tokens (remove_tokens a v) p)\<rparr>"
      by auto
  qed
qed

lemma leakage_filter_complete:
  assumes "\<forall>r\<in>set df. description r \<noteq> None \<and> variety r \<noteq> None \<and> province r \<noteq> None"
  shows "\<exists>df'. leakage_filter df = Inr df'"
proof -
  let ?df1 = "map (\<lambda>r. r\<lparr>description :=
                 Some (remove_tokens (the (description r)) (the (variety r)))\<rparr>) df"
  have p1: "filter_pass variety df = Inr ?df1"
    using assms by (intro filter_pass_complete) auto
  have "\<forall>r\<in>set ?df1. description r \<noteq> None \<and> province r \<noteq> None"
    using assms by auto
  from filter_pass_complete [OF this] show ?thesis
    by (simp add: leakage_filter_def p1)
qed

lemma leakage_filter_rows:
  assumes "leakage_filter df = Inr df'" and "r' \<in> set df'"
  shows "\<exists>r\<in>set df. \<exists>a v p. description r = Some a \<and> variety r = Some v \<and>
            province r = Some p \<and>
            r' = r\<lparr>description := Some (remove_tokens (remove_tokens a v) p)\<rparr>"
proof -
  from assms(2) obtain i where i: "i < length df'" "r' = df' ! i"
    by (auto simp: in_set_conv_nth)
  with leakage_filter_Inr [OF assms(1)] show ?thesis
    unfolding list_all2_conv_all_nth by (metis nth_mem)
qed

lemma select_not_duplicated_Cons:
  "select_rows (r # df) (map Not (duplicated seen (map key (r # df)))) =
   (if key r \<in> set seen then select_rows df (map Not (duplicated (key r # seen) (map key df)))
    else r # select_rows df (map Not (duplicated (key r # seen) (map key df))))"
  by (simp add: select_rows_def)

lemma select_not_duplicated_keys:
  "set (map key (select_rows df (map Not (duplicated seen (map key df))))) =
   set (map key df) - set seen"
proof (induction df arbitrary: seen)
  case Nil
  then show ?case by (simp add: select_rows_def)
next
  case (Cons r df)
  show ?case
    unfolding select_not_duplicated_Cons using Cons.IH [of "key r # seen"] by auto
qed

lemma select_not_duplicated_distinct:
  "distinct (map key (select_rows df (map Not (duplicated seen (map key df)))))"
proof (induction df arbitrary: seen)
  case Nil
  then show ?case by (simp add: select_rows_def)
next
  case (Cons r df)
  show ?case
    unfolding select_not_duplicated_Cons
    using Cons.IH [of "key r # seen"] select_not_duplicated_keys [of key df "key r # seen"]
    by auto
qed

lemma select_rows_subset: "set (select_rows df flags) \<subseteq> set df"
  by (auto simp: select_rows_def dest: set_zip_leftD)

lemma dropna_filter: "dropna df = filter (\<lambda>r. province r \<noteq> None \<and> variety r \<noteq> None) df"
  by (simp add: dropna_def select_rows_map)

lemma drop_duplicates_distinct: "distinct (map non_id_columns (drop_duplicates df))"
  unfolding drop_duplicates_def by (rule select_not_duplicated_distinct)

lemma drop_duplicates_keys:
  "set (map non_id_columns (drop_duplicates df)) = set (map non_id_columns df)"
  unfolding drop_duplicates_def using select_not_duplicated_keys [of non_id_columns df "[]"] by simp

lemma one_per_key:
  assumes "distinct (map key xs)" and "k \<in> set (map key xs)"
  shows "length (filter (\<lambda>s. key s = k) xs) = 1"
proof -
  have "length (filter (\<lambda>s. key s = k) xs) = length (filter (\<lambda>x. x = k) (map key xs))"
    by (simp add: filter_map comp_def)
  also have "\<dots> = card ({x. x = k} \<inter> set (map key xs))"
    using assms(1) by (rule distinct_length_filter)
  also have "{x. x = k} \<inter> set (map key xs) = {k}"
    using assms(2) by auto
  finally show ?thesis by simp
qed

lemma cleaner_representatives:
  assumes "r \<in> set df"
  shows "length (filter (\<lambda>s. non_id_columns s = non_id_columns r) (cleaner df)) =
         (if province r \<noteq> None \<and> variety r \<noteq> None then 1 else 0)"
proof -
  let ?same = "\<lambda>s. non_id_columns s = non_id_columns r"
  let ?ok = "\<lambda>s::row. province s \<noteq> None \<and> variety s \<noteq> None"
  define b where "b \<longleftrightarrow> ?ok r"
  have same_ok: "?ok s = b" if "?same s" for s
    using that by (simp add: non_id_columns_def b_def)
  have "filter ?same (cleaner df) = filter (\<lambda>s. ?ok s \<and> ?same s) (drop_duplicates df)"
    by (simp add: cleaner_def dropna_filter)
  also have "\<dots> = filter (\<lambda>s. b \<and> ?same s) (drop_duplicates df)"
    by (rule filter_cong [OF refl]) (use same_ok in blast)
  finally have eq: "filter ?same (cleaner df) =
      filter (\<lambda>s. b \<and> ?same s) (drop_duplicates df)" .
  have "non_id_columns r \<in> set (map non_id_columns (drop_duplicates df))"
    using assms by (simp only: drop_duplicates_keys) simp
  with drop_duplicates_distinct have one: "length (filter ?same (drop_duplicates df)) = 1"
    by (rule one_per_key)
  have "length (filter ?same (cleaner df)) = (if b then 1 else 0)"
    unfolding eq using one by (cases b) simp_all
  then show ?thesis by (simp only: b_def)
qed

lemma cleaner_distinct: "distinct (map non_id_columns (cleaner df))"
  unfolding cleaner_def dropna_filter using drop_duplicates_distinct
  by (rule distinct_map_filter)

lemma cleaner_subset: "set (cleaner df) \<subseteq> set df"
  unfolding cleaner_def dropna_filter drop_duplicates_def
  using select_rows_subset by fastforce

lemma cleaner_nonnull: "r \<in> set (cleaner df) \<Longrightarrow> province r \<noteq> None \<and> variety r \<noteq> None"
  by (simp add: cleaner_def dropna_filter)

lemma replace_df_nonnull:
  "r \<in> set (replace_df df) \<Longrightarrow>
   \<exists>r0\<in>set df. province r = map_option regex_replace (province r0) \<and>
      variety r = map_option regex_replace (variety r0) \<and>
      description r = map_option regex_replace (description r0) \<and>
      other r = map replace_cell (other r0) \<and> row_id r = row_id r0"
  by (auto simp: replace_df_def replace_row_def)

lemma label_builder_rows:
  "r \<in> set (label_builder df) \<Longrightarrow>
   \<exists>r0\<in>set df. province r = province r0 \<and> variety r = variety r0 \<and>
      description r = description r0 \<and> row_id r = row_id r0 \<and> prov_var r = label_of r0"
  by (auto simp: label_builder_def)

lemma label_of_Some:
  "province r = Some p \<Longrightarrow> variety r = Some v \<Longrightarrow> label_of r = Some (p @ ''_'' @ v)"
  by (simp add: label_of_def str_add_def)

lemma label_of_cases:
  "label_of r = Some l \<Longrightarrow> \<exists>p v. province r = Some p \<and> variety r = Some v \<and> l = p @ ''_'' @ v"
  by (auto simp: label_of_def str_add_def split: option.splits)

lemma df_select_filter:
  "df_select df lst = map project (filter (\<lambda>r. \<exists>l\<in>set lst. prov_var r = Some l) df)"
proof -
  have "isin (prov_var r) lst \<longleftrightarrow> (\<exists>l\<in>set lst. prov_var r = Some l)" for r :: lrow
    by (auto simp: isin_def split: option.splits)
  then show ?thesis by (simp add: df_select_def select_rows_map)
qed

lemma regex_replace_no_punct: "set (regex_replace s) \<inter> punct = {}"
  by (auto simp: regex_replace_def punct_def)

lemma selected_red_17: "length selected_red = 17 \<and> distinct selected_red"
  by (simp add: selected_red_def)

lemma label_builder_nth:
  "i < length df \<Longrightarrow>
   label_builder df ! i =
     \<lparr>row_id = row_id (df ! i), description = description (df ! i), province = province (df ! i),
      variety = variety (df ! i), other = other (df ! i), prov_var = label_of (df ! i)\<rparr>"
  by (simp add: label_builder_def)

lemma regex_replace_not_punct: "x \<in> set (regex_replace s) \<Longrightarrow> x \<notin> punct"
  by (auto simp: regex_replace_def punct_def)

lemma replace_cell_no_punct: "replace_cell c = Str s \<Longrightarrow> set s \<inter> punct = {}"
  by (cases c) (auto dest: regex_replace_not_punct)

lemma regex_replace_nth:
  "i < length s \<Longrightarrow>
   regex_replace s ! i =
     (if s ! i = CHR ''.'' \<or> s ! i = CHR '','' \<or> s ! i = CHR ''-'' then CHR '' '' else s ! i)"
  by (simp add: regex_replace_def punct_def)

lemma label_no_punct:
  assumes "label_of r = Some l"
    and "\<forall>s. province r = Some s \<longrightarrow> set s \<inter> punct = {}"
    and "\<forall>s. variety r = Some s \<longrightarrow> set s \<inter> punct = {}"
  shows "set l \<inter> punct = {}"
proof -
  from label_of_cases [OF assms(1)] obtain p v where
    pv: "province r = Some p" "variety r = Some v" "l = p @ ''_'' @ v" by blast
  with assms(2,3) have "set p \<inter> punct = {}" "set v \<inter> punct = {}" by auto
  moreover have "CHR ''_'' \<notin> punct" by (simp add: punct_def)
  ultimately show ?thesis using pv(3) by auto
qed

lemma replace_df_fields:
  assumes "r \<in> set (replace_df df)"
  shows "(\<forall>s. description r = Some s \<longrightarrow> set s \<inter> punct = {}) \<and>
         (\<forall>s. province r = Some s \<longrightarrow> set s \<inter> punct = {}) \<and>
         (\<forall>s. variety r = Some s \<longrightarrow> set s \<inter> punct = {}) \<and>
         (\<forall>s. Str s \<in> set (other r) \<longrightarrow> set s \<inter> punct = {})"
proof -
  from replace_df_nonnull [OF assms] obtain r0 :: row where
    r0: "province r = map_option regex_replace (province r0)"
      "variety r = map_option regex_replace (variety r0)"
      "description r = map_option regex_replace (description r0)"
      "other r = map replace_cell (other r0)"
    by blast
  show ?thesis
    unfolding r0
    by (auto dest: regex_replace_not_punct replace_cell_no_punct [OF sym])
qed

lemma filtered_label_no_punct:
  assumes run: "leakage_filter (replace_df df) = Inr df'"
    and r: "r \<in> set (label_builder df')" and l: "prov_var r = Some l"
  shows "set l \<inter> punct = {}"
proof -
  from label_builder_rows [OF r] obtain r1 where
    r1: "r1 \<in> set df'" "prov_var r = label_of r1" by blast
  from leakage_filter_rows [OF run r1(1)] obtain r0 where
    r0: "r0 \<in> set (replace_df df)" "province r1 = province r0" "variety r1 = variety r0"
    by fastforce
  from replace_df_fields [OF r0(1)] l r1(2) r0(2,3) show ?thesis
    by (intro label_no_punct [of r1 l]) auto
qed

text \<open>
  Three labels of the red list hold a comma or a hyphen; no label of the prepared table
  does, so these three select nothing and fourteen classes are left.
\<close>

lemma selected_red_unpunctuated:
  "filter (\<lambda>l. set l \<inter> punct = {}) selected_red =
     [''California_Pinot Noir'', ''California_Cabernet Sauvignon'', ''Oregon_Pinot Noir'',
      ''Washington_Cabernet Sauvignon'', ''Washington_Syrah'', ''Piedmont_Nebbiolo'',
      ''Piedmont_Barbera'', ''Tuscany_Sangiovese'', ''Burgundy_Pinot Noir'',
      ''Beaujolais_Gamay'', ''Douro_Portuguese Red'', ''Northern Spain_Tempranillo'',
      ''Mendoza Province_Malbec'', ''South Australia_Shiraz'']"
  by (simp add: selected_red_def punct_def)

lemma punctuated_labels_never_selected:
  assumes "leakage_filter (replace_df df) = Inr df'"
  shows "df_select (label_builder df') selected_red =
         df_select (label_builder df') (filter (\<lambda>l. set l \<inter> punct = {}) selected_red)"
proof -
  have "(\<exists>l\<in>set selected_red. prov_var r = Some l) \<longleftrightarrow>
        (\<exists>l\<in>set (filter (\<lambda>l. set l \<inter> punct = {}) selected_red). prov_var r = Some l)"
    if "r \<in> set (label_builder df')" for r
    using filtered_label_no_punct [OF assms that] by auto
  then show ?thesis
    unfolding df_select_filter by (intro arg_cong [where f = "map project"] filter_cong refl)
qed

text \<open>The ranking of the Descriptor Reporter.\<close>

lemma sorted_reverse_length: "length (sorted_reverse k xs) = length xs"
  by (simp add: sorted_reverse_def)

lemma sorted_reverse_mset: "mset (sorted_reverse k xs) = mset xs"
  by (simp add: sorted_reverse_def)

lemma sorted_reverse_descending: "sorted (rev (map k (sorted_reverse k xs)))"
  by (simp add: sorted_reverse_def rev_map)

lemma sorted_reverse_stable:
  "filter (\<lambda>t. k t = w) (sorted_reverse k xs) = filter (\<lambda>t. k t = w) xs"
proof -
  have "filter (\<lambda>t. k t = w) (sorted_reverse k xs) =
        rev (filter (\<lambda>t. k t = w) (sort_key k (rev xs)))"
    by (simp add: sorted_reverse_def rev_filter)
  also have "\<dots> = rev (filter (\<lambda>t. k t = w) (rev xs))"
    by (simp only: sort_key_stable)
  also have "\<dots> = filter (\<lambda>t. k t = w) xs"
    by (simp add: rev_filter)
  finally show ?thesis .
qed

text \<open>A stable descending ranking of a list is unique.\<close>

lemma sorted_reverse_unique:
  assumes m: "mset ys = mset xs"
    and d: "sorted (rev (map k ys))"
    and s: "\<forall>w. filter (\<lambda>t. k t = w) ys = filter (\<lambda>t. k t = w) xs"
  shows "ys = sorted_reverse k xs"
proof -
  have "sort_key k (rev xs) = rev ys"
  proof (rule properties_for_sort_key)
    show "mset (rev ys) = mset (rev xs)" using m by simp
    show "sorted (map k (rev ys))" using d by (simp add: rev_map)
    fix t
    have "filter (\<lambda>x. k x = k t) ys = filter (\<lambda>x. k x = k t) xs" using s by blast
    then have "filter (\<lambda>x. k t = k x) ys = filter (\<lambda>x. k t = k x) xs"
      by (simp add: eq_commute [of "k t"])
    then show "filter (\<lambda>x. k t = k x) (rev ys) = filter (\<lambda>x. k t = k x) (rev xs)"
      by (simp add: rev_filter [symmetric])
  qed
  then show ?thesis by (simp add: sorted_reverse_def)
qed

lemma descending_take_drop:
  assumes "sorted (rev (map k xs))"
  shows "\<forall>t\<in>set (take n xs). \<forall>u\<in>set (drop n xs). k u \<le> k t"
proof -
  have "rev (map k xs) = rev (map k (drop n xs)) @ rev (map k (take n xs))"
    by (metis append_take_drop_id map_append rev_append)
  with assms have "sorted (rev (map k (drop n xs)) @ rev (map k (take n xs)))" by simp
  then show ?thesis by (auto simp: sorted_append)
qed

lemma top_descriptors_ranked:
  "\<exists>ranked. top_descriptors feature_names weights = map fst (take 10 ranked) \<and>
      stable_descending_ranking (zip feature_names weights) ranked \<and>
      (\<forall>t\<in>set (take 10 ranked). \<forall>u\<in>set (drop 10 ranked). snd u \<le> snd t) \<and>
      (\<forall>other. stable_descending_ranking (zip feature_names weights) other \<longrightarrow>
         other = ranked)"
proof (intro exI conjI allI impI)
  let ?ranked = "sorted_reverse snd (zip feature_names weights)"
  show "top_descriptors feature_names weights = map fst (take 10 ?ranked)"
    by (simp add: top_descriptors_def)
  show "stable_descending_ranking (zip feature_names weights) ?ranked"
    unfolding stable_descending_ranking_def
    by (intro conjI allI sorted_reverse_mset sorted_reverse_descending sorted_reverse_stable)
  show "\<forall>t\<in>set (take 10 ?ranked). \<forall>u\<in>set (drop 10 ?ranked). snd u \<le> snd t"
    using sorted_reverse_descending by (rule descending_take_drop)
  show "other = ?ranked"
    if "stable_descending_ranking (zip feature_names weights) other" for other
    using that unfolding stable_descending_ranking_def
    by (intro sorted_reverse_unique) blast+
qed

lemma top_descriptors_length:
  "length (top_descriptors feature_names weights) =
   min 10 (min (length feature_names) (length weights))"
  by (simp add: top_descriptors_def sorted_reverse_length min.commute)

lemma descriptor_report_total:
  assumes "\<forall>cl\<in>set class_map. snd cl < length matrix"
  shows "descriptor_report feature_names matrix class_map =
         Inr (map (\<lambda>cl. (fst cl, top_descriptors feature_names (matrix ! snd cl))) class_map)"
  unfolding descriptor_report_def using assms
  by (intro comprehension_total) (simp add: report_class_def)

lemmas table_defs =
  cleaner_def dropna_def drop_duplicates_def select_rows_def non_id_columns_def
  label_builder_def label_of_def str_add_def df_select_def isin_def project_def prepare_def

section \<open>Claims\<close>

text \<open>
  C7. The Leakage Filter works row by row and in two passes. On a table with no missing
  description, variety or province it returns a table of the same length whose i-th row
  is the i-th input row with its description filtered first against the tokens of that
  row's own variety and then, on the text the first pass produced, against the tokens of
  that row's own province; nothing of any other row enters.
\<close>

theorem leakage_filter_per_row_two_pass:
  assumes "\<forall>r\<in>set df. description r \<noteq> None \<and> variety r \<noteq> None \<and> province r \<noteq> None"
  shows "\<exists>df'. leakage_filter df = Inr df' \<and>
           list_all2 (\<lambda>r r'. \<exists>a v p. description r = Some a \<and> variety r = Some v \<and>
              province r = Some p \<and>
              r' = r\<lparr>description := Some (remove_tokens (remove_tokens a v) p)\<rparr>) df df'"
  using leakage_filter_complete [OF assms] leakage_filter_Inr by blast

text \<open>
  The first row mentions the second row's province and the second row mentions the first
  row's variety and province: both words stay, since each row is filtered against its
  own fields only.
\<close>

theorem leakage_filter_per_row_two_pass_witness:
  "leakage_filter
     [\<lparr>row_id = 0, description = Some ''Pinot cherry Oregon Noir'',
       province = Some ''California'', variety = Some ''Pinot Noir'', other = []\<rparr>,
      \<lparr>row_id = 1, description = Some ''cherry California Pinot'',
       province = Some ''Oregon'', variety = Some ''Syrah'', other = []\<rparr>] =
   Inr
     [\<lparr>row_id = 0, description = Some ''cherry Oregon'',
       province = Some ''California'', variety = Some ''Pinot Noir'', other = []\<rparr>,
      \<lparr>row_id = 1, description = Some ''cherry California Pinot'',
       province = Some ''Oregon'', variety = Some ''Syrah'', other = []\<rparr>]"
  using leakage_filter_per_row_two_pass
    [of "[\<lparr>row_id = 0, description = Some ''Pinot cherry Oregon Noir'',
           province = Some ''California'', variety = Some ''Pinot Noir'', other = []\<rparr>,
          \<lparr>row_id = 1, description = Some ''cherry California Pinot'',
           province = Some ''Oregon'', variety = Some ''Syrah'', other = []\<rparr>]"]
  by (auto simp: list_all2_Cons1 remove_tokens_def)

text \<open>
  C2 (as the code has it). For every row of the punctuation-normalised table, after the
  Leakage Filter has run, no space-separated word of the row's normalised variety and no
  space-separated word of the row's normalised province is a space-separated word of the
  row's filtered description, under exact string comparison; a word is a maximal run of
  characters other than the space. On a row whose description, variety and province have
  no whitespace character but the space, this is the claim as stated, for
  whitespace-separated tokens. Of the raw elements of \<^verbatim>\<open>split(' ')\<close> only the empty
  string of an emptied description can be shared. The variety and province the filtered
  row carries are the normalised fields of the raw row.
\<close>

theorem filtered_description_has_no_label_token:
  assumes "leakage_filter (replace_df df) = Inr df'"
  shows "(\<forall>r\<in>set df'. \<forall>d v p.
            description r = Some d \<longrightarrow> variety r = Some v \<longrightarrow> province r = Some p \<longrightarrow>
            set (space_tokens d) \<inter> (set (space_tokens v) \<union> set (space_tokens p)) = {} \<and>
            ((\<forall>c\<in>set d \<union> set v \<union> set p. whitespace c \<longrightarrow> c = CHR '' '') \<longrightarrow>
               set (whitespace_tokens d) \<inter>
                 (set (whitespace_tokens v) \<union> set (whitespace_tokens p)) = {}) \<and>
            (\<forall>t. t \<in> set (split_sp d) \<longrightarrow> t \<in> set (split_sp v) \<or> t \<in> set (split_sp p) \<longrightarrow>
               t = [] \<and> d = [])) \<and>
         map variety df' = map (\<lambda>r. map_option regex_replace (variety r)) df \<and>
         map province df' = map (\<lambda>r. map_option regex_replace (province r)) df"
proof (intro conjI ballI allI impI)
  fix r d v p
  assume r: "r \<in> set df'" and d: "description r = Some d" and v: "variety r = Some v"
    and p: "province r = Some p"
  from leakage_filter_rows [OF assms r] obtain a where
    a: "d = remove_tokens (remove_tokens a v) p"
    using d v p by auto
  have edge: "t = [] \<and> d = []"
    if "t \<in> set (split_sp d)" "t \<in> set (split_sp v) \<or> t \<in> set (split_sp p)" for t
    using two_pass_tokens [of t a v p] that a by auto
  then show sp: "set (space_tokens d) \<inter> (set (space_tokens v) \<union> set (space_tokens p)) = {}"
    by (auto simp: space_tokens_def)
  show "set (whitespace_tokens d) \<inter>
          (set (whitespace_tokens v) \<union> set (whitespace_tokens p)) = {}"
    if "\<forall>c\<in>set d \<union> set v \<union> set p. whitespace c \<longrightarrow> c = CHR '' ''"
  proof -
    from that have "whitespace_tokens d = space_tokens d" "whitespace_tokens v = space_tokens v"
      "whitespace_tokens p = space_tokens p"
      by (simp_all add: whitespace_tokens_only_spaces)
    with sp show ?thesis by simp
  qed
  fix t assume "t \<in> set (split_sp d)" "t \<in> set (split_sp v) \<or> t \<in> set (split_sp p)"
  then show "t = []" and "d = []" using edge by blast+
next
  have "\<forall>i<length df'. variety (df' ! i) = variety (replace_df df ! i)"
    using leakage_filter_Inr [OF assms] unfolding list_all2_conv_all_nth by auto
  moreover have "length df' = length df"
    using leakage_filter_Inr [OF assms] by (auto dest: list_all2_lengthD simp: replace_df_def)
  ultimately show "map variety df' = map (\<lambda>r. map_option regex_replace (variety r)) df"
    by (auto simp: list_eq_iff_nth_eq replace_df_def replace_row_def)
next
  have "\<forall>i<length df'. province (df' ! i) = province (replace_df df ! i)"
    using leakage_filter_Inr [OF assms] unfolding list_all2_conv_all_nth by auto
  moreover have "length df' = length df"
    using leakage_filter_Inr [OF assms] by (auto dest: list_all2_lengthD simp: replace_df_def)
  ultimately show "map province df' = map (\<lambda>r. map_option regex_replace (province r)) df"
    by (auto simp: list_eq_iff_nth_eq replace_df_def replace_row_def)
qed

lemmas run_defs =
  leakage_filter_def filter_pass_def replace_df_def replace_row_def regex_replace_def
  punct_def strip_tokens_def set_description_def remove_tokens_def

text \<open>
  A row whose description names its variety with the punctuation the filter is meant to
  cope with: the variety words go, and the words that are left are none of the variety's
  or the province's.
\<close>

theorem filtered_description_has_no_label_token_witness:
  "leakage_filter (replace_df
     [\<lparr>row_id = 7, description = Some ''Pinot-Noir, cherry. Oregon style'',
       province = Some ''California'', variety = Some ''Pinot Noir'', other = [Str ''a-b'']\<rparr>]) =
   Inr
     [\<lparr>row_id = 7, description = Some '' cherry  Oregon style'',
       province = Some ''California'', variety = Some ''Pinot Noir'', other = [Str ''a b'']\<rparr>] \<and>
   space_tokens '' cherry  Oregon style'' = [''cherry'', ''Oregon'', ''style''] \<and>
   set (space_tokens '' cherry  Oregon style'') \<inter>
     (set (space_tokens ''Pinot Noir'') \<union> set (space_tokens ''California'')) = {} \<and>
   set (whitespace_tokens '' cherry  Oregon style'') \<inter>
     (set (whitespace_tokens ''Pinot Noir'') \<union> set (whitespace_tokens ''California'')) = {}"
proof -
  let ?df = "[\<lparr>row_id = 7, description = Some ''Pinot-Noir, cherry. Oregon style'',
       province = Some ''California'', variety = Some ''Pinot Noir'', other = [Str ''a-b'']\<rparr>]"
  let ?df' = "[\<lparr>row_id = 7, description = Some '' cherry  Oregon style'',
       province = Some ''California'', variety = Some ''Pinot Noir'', other = [Str ''a b'']\<rparr>]"
  have run: "leakage_filter (replace_df ?df) = Inr ?df'"
    by (simp add: run_defs)
  have only: "\<forall>c\<in>set '' cherry  Oregon style'' \<union> set ''Pinot Noir'' \<union> set ''California''.
      whitespace c \<longrightarrow> c = CHR '' ''"
    by (simp add: whitespace_def)
  have toks: "space_tokens '' cherry  Oregon style'' = [''cherry'', ''Oregon'', ''style'']"
    by (simp add: space_tokens_def)
  from filtered_description_has_no_label_token [OF run]
  have "set (space_tokens '' cherry  Oregon style'') \<inter>
     (set (space_tokens ''Pinot Noir'') \<union> set (space_tokens ''California'')) = {} \<and>
     ((\<forall>c\<in>set '' cherry  Oregon style'' \<union> set ''Pinot Noir'' \<union> set ''California''.
        whitespace c \<longrightarrow> c = CHR '' '') \<longrightarrow>
      set (whitespace_tokens '' cherry  Oregon style'') \<inter>
       (set (whitespace_tokens ''Pinot Noir'') \<union> set (whitespace_tokens ''California'')) = {})"
    by simp
  with only run toks show ?thesis by blast
qed

text \<open>
  C2 as stated fails on a description that joins two label words with a tab. The code
  splits at the space only, so \<^verbatim>\<open>Pinot<TAB>Noir\<close> is one element, which is neither
  \<^verbatim>\<open>Pinot\<close> nor \<^verbatim>\<open>Noir\<close>, and the description passes both passes unchanged; split at
  whitespace, it still holds both words of the variety.
\<close>

theorem tab_joined_label_word_survives:
  "leakage_filter (replace_df
     [\<lparr>row_id = 0, description = Some (''Pinot'' @ [CHR 0x09] @ ''Noir cherry''),
       province = Some ''Oregon'', variety = Some ''Pinot Noir'', other = []\<rparr>]) =
   Inr
     [\<lparr>row_id = 0, description = Some (''Pinot'' @ [CHR 0x09] @ ''Noir cherry''),
       province = Some ''Oregon'', variety = Some ''Pinot Noir'', other = []\<rparr>] \<and>
   whitespace_tokens (''Pinot'' @ [CHR 0x09] @ ''Noir cherry'') = [''Pinot'', ''Noir'', ''cherry''] \<and>
   whitespace_tokens ''Pinot Noir'' = [''Pinot'', ''Noir'']"
  by (simp add: run_defs whitespace_tokens_def whitespace_def)

text \<open>
  C9. For every description and every variety and province string, removing the variety
  tokens and then the province tokens in two split-filter-join passes gives the same
  description as one pass that removes the tokens of the union of both token sets, and
  running the two passes in the other order gives the same description too.
\<close>

theorem two_pass_is_single_pass_union:
  "remove_tokens (remove_tokens a v) p = single_pass_union a v p \<and>
   remove_tokens (remove_tokens a p) v = remove_tokens (remove_tokens a v) p"
  by (simp add: remove_tokens_def single_pass_union_def two_passes conj_commute)

text \<open>
  C5. Every row the Cleaner keeps has a province and a variety, and no two kept rows agree
  on all columns but the identifier: each kept row is the one representative kept of the
  rows that agree with it on those columns. (Of the rows of the raw table that agree on
  all columns but the identifier, one is kept when they have a province and a variety
  and none when they miss one.) The rows keep their province and variety through the
  punctuation replacement, the Leakage Filter and the Label Builder, and every label the
  Class Selector returns is built from them.
\<close>

theorem cleaner_invariant:
  "(\<forall>r\<in>set (cleaner raw). province r \<noteq> None \<and> variety r \<noteq> None) \<and>
   distinct (map non_id_columns (cleaner raw)) \<and>
   (\<forall>r\<in>set (cleaner raw).
      length (filter (\<lambda>s. non_id_columns s = non_id_columns r) (cleaner raw)) = 1) \<and>
   set (cleaner raw) \<subseteq> set raw \<and>
   (\<forall>r\<in>set raw. length (filter (\<lambda>s. non_id_columns s = non_id_columns r) (cleaner raw)) =
      (if province r \<noteq> None \<and> variety r \<noteq> None then 1 else 0)) \<and>
   (\<forall>r\<in>set (replace_df (cleaner raw)). province r \<noteq> None \<and> variety r \<noteq> None) \<and>
   (\<forall>df'. leakage_filter (replace_df (cleaner raw)) = Inr df' \<longrightarrow>
      (\<forall>r\<in>set df'. province r \<noteq> None \<and> variety r \<noteq> None) \<and>
      (\<forall>r\<in>set (label_builder df').
         province r \<noteq> None \<and> variety r \<noteq> None \<and> prov_var r \<noteq> None) \<and>
      (\<forall>lst. \<forall>s\<in>set (df_select (label_builder df') lst). sel_prov_var s \<noteq> None))"
proof (intro conjI allI impI)
  show "\<forall>r\<in>set (cleaner raw). province r \<noteq> None \<and> variety r \<noteq> None"
    using cleaner_nonnull by blast
  show "distinct (map non_id_columns (cleaner raw))" by (rule cleaner_distinct)
  show "set (cleaner raw) \<subseteq> set raw" by (rule cleaner_subset)
  show "\<forall>r\<in>set (cleaner raw).
      length (filter (\<lambda>s. non_id_columns s = non_id_columns r) (cleaner raw)) = 1"
  proof
    fix r assume r: "r \<in> set (cleaner raw)"
    then have "r \<in> set raw" using cleaner_subset by blast
    from cleaner_representatives [OF this] cleaner_nonnull [OF r]
    show "length (filter (\<lambda>s. non_id_columns s = non_id_columns r) (cleaner raw)) = 1"
      by simp
  qed
  show "\<forall>r\<in>set raw. length (filter (\<lambda>s. non_id_columns s = non_id_columns r) (cleaner raw)) =
      (if province r \<noteq> None \<and> variety r \<noteq> None then 1 else 0)"
    using cleaner_representatives by blast
  show n: "\<forall>r\<in>set (replace_df (cleaner raw)). province r \<noteq> None \<and> variety r \<noteq> None"
    using cleaner_nonnull by (fastforce dest!: replace_df_nonnull)
  fix df' assume run: "leakage_filter (replace_df (cleaner raw)) = Inr df'"
  show f: "\<forall>r\<in>set df'. province r \<noteq> None \<and> variety r \<noteq> None"
    using leakage_filter_rows [OF run] by fastforce
  show l: "\<forall>r\<in>set (label_builder df').
         province r \<noteq> None \<and> variety r \<noteq> None \<and> prov_var r \<noteq> None"
  proof
    fix r assume "r \<in> set (label_builder df')"
    from label_builder_rows [OF this] obtain r0 where r0: "r0 \<in> set df'"
      "province r = province r0" "variety r = variety r0" "prov_var r = label_of r0"
      by blast
    with f obtain p v where "province r0 = Some p" "variety r0 = Some v" by auto
    with r0 label_of_Some [of r0 p v] show "province r \<noteq> None \<and> variety r \<noteq> None \<and> prov_var r \<noteq> None"
      by simp
  qed
  fix lst
  show "\<forall>s\<in>set (df_select (label_builder df') lst). sel_prov_var s \<noteq> None"
    by (auto simp: df_select_filter project_def)
qed

theorem cleaner_invariant_witness:
  "cleaner example_raw = [example_raw ! 0, example_raw ! 3] \<and>
   length (filter (\<lambda>s. non_id_columns s = non_id_columns (example_raw ! 1)) (cleaner example_raw)) = 1 \<and>
   length (filter (\<lambda>s. non_id_columns s = non_id_columns (example_raw ! 2)) (cleaner example_raw)) = 0 \<and>
   (\<exists>df'. leakage_filter (replace_df (cleaner example_raw)) = Inr df' \<and>
      list_all (\<lambda>r. province r \<noteq> None \<and> variety r \<noteq> None) df')"
proof -
  have c: "cleaner example_raw = [example_raw ! 0, example_raw ! 3]"
    by (simp add: example_raw_def table_defs)
  have m: "example_raw ! 1 \<in> set example_raw" "example_raw ! 2 \<in> set example_raw"
    by (simp_all add: example_raw_def)
  have run: "\<exists>df'. leakage_filter (replace_df (cleaner example_raw)) = Inr df'"
    unfolding c by (simp add: example_raw_def run_defs)
  from cleaner_invariant [of example_raw] m run c show ?thesis
    by (auto simp: example_raw_def list_all_iff)
qed

text \<open>
  C4. For every row, the label the Label Builder writes is the row's province, the
  delimiter \<^verbatim>\<open>_\<close> and the row's variety, concatenated; the table keeps its length and
  the row its other fields. This holds for every row of the table the notebook has
  prepared (where province and variety are never missing). The label column is a
  function of the province and variety columns alone: two tables with the same two
  columns get the same label column.
\<close>

theorem label_is_province_underscore_variety:
  "length (label_builder df) = length df \<and>
   (\<forall>i<length df. \<forall>p v. province (df ! i) = Some p \<longrightarrow> variety (df ! i) = Some v \<longrightarrow>
      prov_var (label_builder df ! i) = Some (p @ ''_'' @ v) \<and>
      province (label_builder df ! i) = Some p \<and> variety (label_builder df ! i) = Some v) \<and>
   (\<forall>raw ldf. prepare raw = Inr ldf \<longrightarrow>
      (\<forall>r\<in>set ldf. \<exists>p v. province r = Some p \<and> variety r = Some v \<and>
         prov_var r = Some (p @ ''_'' @ v))) \<and>
   (\<forall>df2 :: row list. map province df2 = map province df \<and> map variety df2 = map variety df \<longrightarrow>
      map prov_var (label_builder df2) = map prov_var (label_builder df))"
proof (intro conjI allI impI)
  show "length (label_builder df) = length df" by (simp add: label_builder_def)
next
  fix i p v
  assume "i < length df" "province (df ! i) = Some p" "variety (df ! i) = Some v"
  then show "prov_var (label_builder df ! i) = Some (p @ ''_'' @ v)"
    and "province (label_builder df ! i) = Some p"
    and "variety (label_builder df ! i) = Some v"
    by (simp_all add: label_builder_nth label_of_Some)
next
  fix raw ldf assume "prepare raw = Inr ldf"
  then obtain df' where run: "leakage_filter (replace_df (cleaner raw)) = Inr df'"
    and ldf: "ldf = label_builder df'"
    by (auto simp: prepare_def split: sum.splits)
  show "\<forall>r\<in>set ldf. \<exists>p v. province r = Some p \<and> variety r = Some v \<and>
         prov_var r = Some (p @ ''_'' @ v)"
  proof
    fix r assume "r \<in> set ldf"
    with ldf label_builder_rows [of r df'] obtain r0 where r0: "r0 \<in> set df'"
      "province r = province r0" "variety r = variety r0" "prov_var r = label_of r0"
      by blast
    from leakage_filter_rows [OF run r0(1)] obtain p v where
      "province r0 = Some p" "variety r0 = Some v" by fastforce
    with r0 label_of_Some [of r0 p v]
    show "\<exists>p v. province r = Some p \<and> variety r = Some v \<and> prov_var r = Some (p @ ''_'' @ v)"
      by simp
  qed
next
  fix df2 :: "row list" assume eq: "map province df2 = map province df \<and> map variety df2 = map variety df"
  then have len: "length df2 = length df" by (metis length_map)
  have "label_of (df2 ! i) = label_of (df ! i)" if "i < length df" for i
  proof -
    from eq that len have "province (df2 ! i) = province (df ! i)" "variety (df2 ! i) = variety (df ! i)"
      by (metis nth_map)+
    then show ?thesis by (simp add: label_of_def)
  qed
  with len show "map prov_var (label_builder df2) = map prov_var (label_builder df)"
    by (simp add: list_eq_iff_nth_eq label_builder_nth label_builder_def)
qed

theorem label_is_province_underscore_variety_witness:
  "prepare example_raw =
     Inr [\<lparr>row_id = 0, description = Some ''Ripe cherry  driven  style'',
            province = Some ''Oregon'', variety = Some ''Pinot Noir'',
            other = [Str ''US'', Num 87], prov_var = Some ''Oregon_Pinot Noir''\<rparr>,
          \<lparr>row_id = 3, description = Some ''Rich'',
            province = Some ''Bordeaux'', variety = Some ''Bordeaux style Red Blend'',
            other = [Str ''France'', Num 90],
            prov_var = Some ''Bordeaux_Bordeaux style Red Blend''\<rparr>] \<and>
   map prov_var (label_builder (cleaner example_raw)) =
     [Some ''Oregon_Pinot Noir'', Some ''Bordeaux_Bordeaux-style Red Blend'']"
proof -
  have c: "cleaner example_raw = [example_raw ! 0, example_raw ! 3]"
    by (simp add: example_raw_def table_defs)
  have p: "prepare example_raw =
     Inr [\<lparr>row_id = 0, description = Some ''Ripe cherry  driven  style'',
            province = Some ''Oregon'', variety = Some ''Pinot Noir'',
            other = [Str ''US'', Num 87], prov_var = Some ''Oregon_Pinot Noir''\<rparr>,
          \<lparr>row_id = 3, description = Some ''Rich'',
            province = Some ''Bordeaux'', variety = Some ''Bordeaux style Red Blend'',
            other = [Str ''France'', Num 90],
            prov_var = Some ''Bordeaux_Bordeaux style Red Blend''\<rparr>]"
    unfolding prepare_def c
    by (simp add: example_raw_def run_defs label_builder_def label_of_def str_add_def)
  from label_is_province_underscore_variety [of "cleaner example_raw"]
  have "\<forall>i<2. \<forall>p v. province (cleaner example_raw ! i) = Some p \<longrightarrow>
      variety (cleaner example_raw ! i) = Some v \<longrightarrow>
      prov_var (label_builder (cleaner example_raw) ! i) = Some (p @ ''_'' @ v)"
    and len: "length (label_builder (cleaner example_raw)) = 2"
    unfolding c by simp_all
  then have "prov_var (label_builder (cleaner example_raw) ! 0) = Some ''Oregon_Pinot Noir''"
    and "prov_var (label_builder (cleaner example_raw) ! 1) = Some ''Bordeaux_Bordeaux-style Red Blend''"
    unfolding c by (simp_all add: example_raw_def)
  with len have "map prov_var (label_builder (cleaner example_raw)) =
     [Some ''Oregon_Pinot Noir'', Some ''Bordeaux_Bordeaux-style Red Blend'']"
    by (simp add: list_eq_iff_nth_eq less_Suc_eq numeral_2_eq_2)
  with p show ?thesis by (rule conjI)
qed

text \<open>
  C10. The punctuation replacement reaches every column: after it, no text cell of any
  row (description, province, variety or any other column) holds a comma, a period or a
  hyphen; each text cell is the old cell with exactly those characters turned into
  spaces, and numbers, missing cells and the identifier are unchanged. Every label built
  afterwards, directly or after the Leakage Filter, is free of the three characters.
\<close>

theorem no_punctuation_after_replace:
  "(\<forall>r\<in>set (replace_df df).
      (\<forall>s. description r = Some s \<longrightarrow> set s \<inter> punct = {}) \<and>
      (\<forall>s. province r = Some s \<longrightarrow> set s \<inter> punct = {}) \<and>
      (\<forall>s. variety r = Some s \<longrightarrow> set s \<inter> punct = {}) \<and>
      (\<forall>s. Str s \<in> set (other r) \<longrightarrow> set s \<inter> punct = {})) \<and>
   list_all2 (\<lambda>r r'. row_id r' = row_id r \<and>
      description r' = map_option regex_replace (description r) \<and>
      province r' = map_option regex_replace (province r) \<and>
      variety r' = map_option regex_replace (variety r) \<and>
      other r' = map replace_cell (other r)) df (replace_df df) \<and>
   (\<forall>s. length (regex_replace s) = length s \<and>
      (\<forall>i<length s. regex_replace s ! i =
         (if s ! i = CHR ''.'' \<or> s ! i = CHR '','' \<or> s ! i = CHR ''-''
          then CHR '' '' else s ! i))) \<and>
   (\<forall>r\<in>set (label_builder (replace_df df)). \<forall>l. prov_var r = Some l \<longrightarrow> set l \<inter> punct = {}) \<and>
   (\<forall>df'. leakage_filter (replace_df df) = Inr df' \<longrightarrow>
      (\<forall>r\<in>set (label_builder df'). \<forall>l. prov_var r = Some l \<longrightarrow> set l \<inter> punct = {}))"
proof (intro conjI allI impI ballI)
  fix r assume r: "r \<in> set (replace_df df)"
  from replace_df_fields [OF r]
  show "\<And>s. description r = Some s \<Longrightarrow> set s \<inter> punct = {}"
    and "\<And>s. province r = Some s \<Longrightarrow> set s \<inter> punct = {}"
    and "\<And>s. variety r = Some s \<Longrightarrow> set s \<inter> punct = {}"
    and "\<And>s. Str s \<in> set (other r) \<Longrightarrow> set s \<inter> punct = {}"
    by blast+
next
  show "list_all2 (\<lambda>r r'. row_id r' = row_id r \<and>
      description r' = map_option regex_replace (description r) \<and>
      province r' = map_option regex_replace (province r) \<and>
      variety r' = map_option regex_replace (variety r) \<and>
      other r' = map replace_cell (other r)) df (replace_df df)"
    by (simp add: replace_df_def list_all2_map2 replace_row_def list_all2_same)
next
  fix s :: string show "length (regex_replace s) = length s" by (simp add: regex_replace_def)
next
  fix s :: string and i assume "i < length s"
  then show "regex_replace s ! i =
         (if s ! i = CHR ''.'' \<or> s ! i = CHR '','' \<or> s ! i = CHR ''-''
          then CHR '' '' else s ! i)"
    by (rule regex_replace_nth)
next
  fix r l assume "r \<in> set (label_builder (replace_df df))" and l: "prov_var r = Some l"
  from label_builder_rows [OF this(1)] obtain r0 where
    r0: "r0 \<in> set (replace_df df)" "prov_var r = label_of r0" by blast
  from replace_df_fields [OF r0(1)] l r0(2) show "set l \<inter> punct = {}"
    by (intro label_no_punct [of r0 l]) auto
next
  fix df' r l
  assume run: "leakage_filter (replace_df df) = Inr df'"
    and "r \<in> set (label_builder df')" and l: "prov_var r = Some l"
  then show "set l \<inter> punct = {}" by (rule filtered_label_no_punct)
qed

theorem no_punctuation_after_replace_witness:
  "replace_df
     [\<lparr>row_id = 5, description = Some ''Dry, earthy - and firm.'', province = Some ''Veneto'',
       variety = Some ''Corvina, Rondinella, Molinara'',
       other = [Str ''Valpolicella-Ripasso'', Num 88, NaN]\<rparr>] =
     [\<lparr>row_id = 5, description = Some ''Dry  earthy   and firm '', province = Some ''Veneto'',
       variety = Some ''Corvina  Rondinella  Molinara'',
       other = [Str ''Valpolicella Ripasso'', Num 88, NaN]\<rparr>] \<and>
   map prov_var (label_builder (replace_df
     [\<lparr>row_id = 5, description = Some ''Dry, earthy - and firm.'', province = Some ''Veneto'',
       variety = Some ''Corvina, Rondinella, Molinara'',
       other = [Str ''Valpolicella-Ripasso'', Num 88, NaN]\<rparr>])) =
     [Some ''Veneto_Corvina  Rondinella  Molinara''] \<and>
   set ''Veneto_Corvina  Rondinella  Molinara'' \<inter> punct = {}"
proof -
  let ?df = "[\<lparr>row_id = 5, description = Some ''Dry, earthy - and firm.'', province = Some ''Veneto'',
       variety = Some ''Corvina, Rondinella, Molinara'',
       other = [Str ''Valpolicella-Ripasso'', Num 88, NaN]\<rparr>]"
  have r: "replace_df ?df =
     [\<lparr>row_id = 5, description = Some ''Dry  earthy   and firm '', province = Some ''Veneto'',
       variety = Some ''Corvina  Rondinella  Molinara'',
       other = [Str ''Valpolicella Ripasso'', Num 88, NaN]\<rparr>]"
    by (simp add: run_defs)
  have l: "map prov_var (label_builder (replace_df ?df)) =
     [Some ''Veneto_Corvina  Rondinella  Molinara'']"
    unfolding r by (simp add: table_defs)
  from no_punctuation_after_replace [of ?df]
  have "\<forall>r\<in>set (label_builder (replace_df ?df)). \<forall>l. prov_var r = Some l \<longrightarrow> set l \<inter> punct = {}"
    by (elim conjE)
  then have "\<forall>x\<in>set (map prov_var (label_builder (replace_df ?df))). \<forall>l. x = Some l \<longrightarrow> set l \<inter> punct = {}"
    by simp
  then have "set ''Veneto_Corvina  Rondinella  Molinara'' \<inter> punct = {}"
    unfolding l by simp
  with r l show ?thesis by (intro conjI)
qed

text \<open>
  C3 (as the code has it). The curated red list has 17 distinct labels, and the Class
  Selector applied with it returns, in table order, the projections of exactly the rows
  whose label is one of those 17 strings, and no row with any other label.
\<close>

theorem selected_red_selection:
  "length selected_red = 17 \<and> distinct selected_red \<and>
   df_select df selected_red =
     map project (filter (\<lambda>r. \<exists>l\<in>set selected_red. prov_var r = Some l) df) \<and>
   (\<forall>s\<in>set (df_select df selected_red). \<exists>l\<in>set selected_red. sel_prov_var s = Some l)"
proof (intro conjI)
  show "length selected_red = 17" and "distinct selected_red"
    using selected_red_17 by simp_all
  show "df_select df selected_red =
     map project (filter (\<lambda>r. \<exists>l\<in>set selected_red. prov_var r = Some l) df)"
    by (rule df_select_filter)
  then show "\<forall>s\<in>set (df_select df selected_red). \<exists>l\<in>set selected_red. sel_prov_var s = Some l"
    by (auto simp: project_def)
qed

theorem selected_red_selection_witness:
  "df_select example_labelled selected_red =
     [\<lparr>sel_id = 0, sel_description = Some ''Ripe cherry  driven  style'',
       sel_prov_var = Some ''Oregon_Pinot Noir''\<rparr>,
      \<lparr>sel_id = 9, sel_description = Some ''Silky cola and raspberry'',
       sel_prov_var = Some ''Oregon_Pinot Noir''\<rparr>] \<and>
   map project (filter (\<lambda>r. \<exists>l\<in>set selected_red. prov_var r = Some l) example_labelled) =
     [\<lparr>sel_id = 0, sel_description = Some ''Ripe cherry  driven  style'',
       sel_prov_var = Some ''Oregon_Pinot Noir''\<rparr>,
      \<lparr>sel_id = 9, sel_description = Some ''Silky cola and raspberry'',
       sel_prov_var = Some ''Oregon_Pinot Noir''\<rparr>]"
proof -
  have e: "df_select example_labelled selected_red =
     [\<lparr>sel_id = 0, sel_description = Some ''Ripe cherry  driven  style'',
       sel_prov_var = Some ''Oregon_Pinot Noir''\<rparr>,
      \<lparr>sel_id = 9, sel_description = Some ''Silky cola and raspberry'',
       sel_prov_var = Some ''Oregon_Pinot Noir''\<rparr>]"
    by (simp add: example_labelled_def selected_red_def table_defs)
  from selected_red_selection [of example_labelled]
  have "map project (filter (\<lambda>r. \<exists>l\<in>set selected_red. prov_var r = Some l) example_labelled) =
     df_select example_labelled selected_red"
    by simp
  with e show ?thesis by simp
qed

text \<open>C3 as stated fails on the list itself: it has 17 labels, not 14.\<close>

theorem selected_red_has_17_labels:
  "length selected_red = 17 \<and> card (set selected_red) = 17"
  using selected_red_17 by (simp add: distinct_card)

text \<open>
  C6. The labels in the Class Selector's output are the labels of its input that are in
  the allow-list. No returned row has a label outside the list, every input row with a
  label of the list is returned, and a returned row has exactly the identifier, the
  filtered description and the label of the row it comes from.
\<close>

theorem df_select_is_allow_list_intersection:
  "{l. \<exists>s\<in>set (df_select df lst). sel_prov_var s = Some l} =
     {l. \<exists>r\<in>set df. prov_var r = Some l} \<inter> set lst \<and>
   (\<forall>s\<in>set (df_select df lst). \<exists>l\<in>set lst. sel_prov_var s = Some l) \<and>
   (\<forall>r\<in>set df. \<forall>l. prov_var r = Some l \<longrightarrow> l \<in> set lst \<longrightarrow>
      project r \<in> set (df_select df lst)) \<and>
   df_select df lst = map project (filter (\<lambda>r. \<exists>l\<in>set lst. prov_var r = Some l) df) \<and>
   (\<forall>r. sel_id (project r) = row_id r \<and> sel_description (project r) = description r \<and>
      sel_prov_var (project r) = prov_var r)"
proof (intro conjI)
  show "{l. \<exists>s\<in>set (df_select df lst). sel_prov_var s = Some l} =
     {l. \<exists>r\<in>set df. prov_var r = Some l} \<inter> set lst"
    by (auto simp: df_select_filter project_def)
  show "\<forall>s\<in>set (df_select df lst). \<exists>l\<in>set lst. sel_prov_var s = Some l"
    by (auto simp: df_select_filter project_def)
  show "\<forall>r\<in>set df. \<forall>l. prov_var r = Some l \<longrightarrow> l \<in> set lst \<longrightarrow>
      project r \<in> set (df_select df lst)"
    by (auto simp: df_select_filter)
  show "df_select df lst = map project (filter (\<lambda>r. \<exists>l\<in>set lst. prov_var r = Some l) df)"
    by (rule df_select_filter)
  show "\<forall>r. sel_id (project r) = row_id r \<and> sel_description (project r) = description r \<and>
      sel_prov_var (project r) = prov_var r"
    by (simp add: project_def)
qed

theorem df_select_is_allow_list_intersection_witness:
  "df_select example_labelled [''California_Chardonnay'', ''Mosel_Riesling''] =
     [\<lparr>sel_id = 4, sel_description = Some ''Crisp green apple'',
       sel_prov_var = Some ''California_Chardonnay''\<rparr>] \<and>
   {l. \<exists>r\<in>set example_labelled. prov_var r = Some l} \<inter>
     set [''California_Chardonnay'', ''Mosel_Riesling''] = {''California_Chardonnay''}"
proof -
  let ?lst = "[''California_Chardonnay'', ''Mosel_Riesling'']"
  have e: "df_select example_labelled ?lst =
     [\<lparr>sel_id = 4, sel_description = Some ''Crisp green apple'',
       sel_prov_var = Some ''California_Chardonnay''\<rparr>]"
    by (simp add: example_labelled_def table_defs)
  have "{l. \<exists>r\<in>set example_labelled. prov_var r = Some l} \<inter> set ?lst =
        {l. \<exists>s\<in>set (df_select example_labelled ?lst). sel_prov_var s = Some l}"
    using df_select_is_allow_list_intersection [of example_labelled ?lst, THEN conjunct1]
    by (rule sym)
  also have "\<dots> = {''California_Chardonnay''}"
    unfolding e by auto
  finally show ?thesis using e by (intro conjI)
qed

text \<open>
  C8. For every entry of the class map, the Descriptor Reporter prints the label and the
  names of the first ten entries of the ranking of the whole vocabulary by that class's
  row of weights (the log-probabilities of the naive Bayes model or the coefficients of
  the linear model, whichever matrix is passed). The ranking holds every vocabulary entry
  once, in descending weight order, entries of equal weight in vocabulary order; nothing
  after its first ten entries outweighs one of them; and it is the only list with these
  properties, so the ten names and their order are fixed by vocabulary and weights and a
  second run prints the same lists. A line has ten names, or the whole vocabulary when
  that has fewer than ten entries. Weights are taken from a linear order. The report
  exists whenever every code of the class map is a row of the matrix and every row is as
  long as the vocabulary.
\<close>

theorem descriptor_report_top_10:
  assumes codes: "\<forall>cl\<in>set class_map. snd cl < length matrix"
    and rows: "\<forall>weights\<in>set matrix. length weights = length feature_names"
  shows "\<exists>out. descriptor_report feature_names matrix class_map = Inr out \<and>
     list_all2 (\<lambda>cl line. fst line = fst cl \<and>
        length (snd line) = min 10 (length feature_names) \<and>
        (\<exists>ranked. snd line = map fst (take 10 ranked) \<and>
           stable_descending_ranking (zip feature_names (matrix ! snd cl)) ranked \<and>
           (\<forall>t\<in>set (take 10 ranked). \<forall>u\<in>set (drop 10 ranked). snd u \<le> snd t) \<and>
           (\<forall>other. stable_descending_ranking (zip feature_names (matrix ! snd cl)) other \<longrightarrow>
              other = ranked)))
       class_map out"
proof (intro exI conjI)
  let ?out = "map (\<lambda>cl. (fst cl, top_descriptors feature_names (matrix ! snd cl))) class_map"
  show "descriptor_report feature_names matrix class_map = Inr ?out"
    using codes by (rule descriptor_report_total)
  have len: "length (top_descriptors feature_names (matrix ! snd cl)) =
             min 10 (length feature_names)" if "cl \<in> set class_map" for cl
  proof -
    from that codes rows have "length (matrix ! snd cl) = length feature_names" by simp
    then show ?thesis by (simp add: top_descriptors_length)
  qed
  show "list_all2 (\<lambda>cl line. fst line = fst cl \<and>
        length (snd line) = min 10 (length feature_names) \<and>
        (\<exists>ranked. snd line = map fst (take 10 ranked) \<and>
           stable_descending_ranking (zip feature_names (matrix ! snd cl)) ranked \<and>
           (\<forall>t\<in>set (take 10 ranked). \<forall>u\<in>set (drop 10 ranked). snd u \<le> snd t) \<and>
           (\<forall>other. stable_descending_ranking (zip feature_names (matrix ! snd cl)) other \<longrightarrow>
              other = ranked)))
       class_map ?out"
    unfolding list_all2_map2
  proof (rule list_all2_same [THEN iffD2], intro ballI conjI)
    fix cl assume cl: "cl \<in> set class_map"
    show "fst (fst cl, top_descriptors feature_names (matrix ! snd cl)) = fst cl" by simp
    show "length (snd (fst cl, top_descriptors feature_names (matrix ! snd cl))) =
          min 10 (length feature_names)"
      using len [OF cl] by simp
    show "\<exists>ranked. snd (fst cl, top_descriptors feature_names (matrix ! snd cl)) =
            map fst (take 10 ranked) \<and>
           stable_descending_ranking (zip feature_names (matrix ! snd cl)) ranked \<and>
           (\<forall>t\<in>set (take 10 ranked). \<forall>u\<in>set (drop 10 ranked). snd u \<le> snd t) \<and>
           (\<forall>other. stable_descending_ranking (zip feature_names (matrix ! snd cl)) other \<longrightarrow>
              other = ranked)"
      using top_descriptors_ranked [of feature_names "matrix ! snd cl"] by simp
  qed
qed

text \<open>
  Two classes over the example vocabulary: each line has ten of the twelve names, and
  the three names of equal weight lead the second line in vocabulary order.
\<close>

theorem descriptor_report_top_10_witness:
  "descriptor_report example_names example_matrix
     [(''Washington_Syrah'', 1), (''Oregon_Pinot Noir'', 0)] =
   Inr [(''Washington_Syrah'',
           [''dark'', ''spice'', ''barrel'', ''plum'', ''firm'', ''earthy'', ''vanilla'',
            ''tart'', ''silky'', ''light'']),
        (''Oregon_Pinot Noir'',
           [''cherry fruit'', ''light'', ''tart'', ''dark'', ''firm'', ''earthy'', ''silky'',
            ''cola'', ''plum'', ''barrel''])] \<and>
   list_all2 (\<lambda>cl line. fst line = fst cl \<and> length (snd line) = 10)
     [(''Washington_Syrah'', 1::nat), (''Oregon_Pinot Noir'', 0)]
     [(''Washington_Syrah'',
           [''dark'', ''spice'', ''barrel'', ''plum'', ''firm'', ''earthy'', ''vanilla'',
            ''tart'', ''silky'', ''light'']),
        (''Oregon_Pinot Noir'',
           [''cherry fruit'', ''light'', ''tart'', ''dark'', ''firm'', ''earthy'', ''silky'',
            ''cola'', ''plum'', ''barrel''])]"
proof -
  let ?cm = "[(''Washington_Syrah'', 1::nat), (''Oregon_Pinot Noir'', 0)]"
  let ?out = "[(''Washington_Syrah'',
           [''dark'', ''spice'', ''barrel'', ''plum'', ''firm'', ''earthy'', ''vanilla'',
            ''tart'', ''silky'', ''light'']),
        (''Oregon_Pinot Noir'',
           [''cherry fruit'', ''light'', ''tart'', ''dark'', ''firm'', ''earthy'', ''silky'',
            ''cola'', ''plum'', ''barrel''])]"
  have codes: "\<forall>cl\<in>set ?cm. snd cl < length example_matrix"
    by (simp add: example_matrix_def)
  have rows: "\<forall>weights\<in>set example_matrix. length weights = length example_names"
    by (simp add: example_matrix_def example_names_def)
  have e: "descriptor_report example_names example_matrix ?cm = Inr ?out"
    by code_simp
  have n: "min 10 (length example_names) = 10"
    by (simp add: example_names_def)
  from descriptor_report_top_10 [OF codes rows] obtain out where
    "descriptor_report example_names example_matrix ?cm = Inr out"
    and l: "list_all2 (\<lambda>cl line. fst line = fst cl \<and>
        length (snd line) = min 10 (length example_names) \<and>
        (\<exists>ranked. snd line = map fst (take 10 ranked) \<and>
           stable_descending_ranking (zip example_names (example_matrix ! snd cl)) ranked \<and>
           (\<forall>t\<in>set (take 10 ranked). \<forall>u\<in>set (drop 10 ranked). snd u \<le> snd t) \<and>
           (\<forall>other. stable_descending_ranking (zip example_names (example_matrix ! snd cl)) other \<longrightarrow>
              other = ranked)))
       ?cm out"
    by blast
  with e have o: "out = ?out" by simp
  from l have "list_all2 (\<lambda>cl line. fst line = fst cl \<and> length (snd line) = 10) ?cm out"
    unfolding n by (rule list_all2_mono) blast
  then have "list_all2 (\<lambda>cl line. fst line = fst cl \<and> length (snd line) = 10) ?cm ?out"
    unfolding o .
  with e show ?thesis by (rule conjI)
qed

text \<open>
  C1 (what the code does instead). The Predictor does not map each prediction to its
  label: it walks the class map and keeps the labels whose code occurs among the
  predictions. With a classifier that predicts code 3 for both of two inputs it returns
  one label, not two; with predictions 13 and 3 it returns the labels of 3 and 13 in the
  order of the class map, the same list as for predictions 3 and 13.
\<close>

theorem predictor_reports_classes_not_inputs:
  "predictor transform (\<lambda>x. [3, 3]) class_map_red test_input = [''California_Pinot Noir''] \<and>
   predictor transform (\<lambda>x. [13, 3]) class_map_red test_input =
     [''California_Pinot Noir'', ''Washington_Syrah''] \<and>
   predictor transform (\<lambda>x. [3, 13]) class_map_red test_input =
     [''California_Pinot Noir'', ''Washington_Syrah'']"
  by (simp add: predictor_def class_map_red_def)

end
